theory Spec2Isabelle
  imports Complex_Main
begin

section \<open>Geometry value types of \<^verbatim>\<open>src/index.js\<close>\<close>

text \<open>
  A JavaScript number is modelled by the rational it denotes; infinities and NaN are
  outside this model. The accessors, \<^verbatim>\<open>centeredIn\<close>, \<^verbatim>\<open>alignedToGrid\<close> and the
  aspect-fill arithmetic are read in exact arithmetic, as the rational expressions of the
  same shape. The arithmetic of \<^verbatim>\<open>inset\<close> is read as the program computes it: each
  \<^verbatim>\<open>+\<close>, \<^verbatim>\<open>-\<close> and \<^verbatim>\<open>*\<close> rounds its exact result to binary64.
\<close>

record Point =
  x :: rat
  y :: rat

record Size =
  width :: rat
  height :: rat

record Rect =
  origin :: Point
  size_rect :: Size

text \<open>The four-argument form of the constructors (\<^verbatim>\<open>new Point(x, y)\<close>, ...).\<close>

definition Point_new :: "rat \<Rightarrow> rat \<Rightarrow> Point" where
  "Point_new px py = \<lparr>x = px, y = py\<rparr>"

definition Size_new :: "rat \<Rightarrow> rat \<Rightarrow> Size" where
  "Size_new w h = \<lparr>width = w, height = h\<rparr>"

definition Rect_new :: "rat \<Rightarrow> rat \<Rightarrow> rat \<Rightarrow> rat \<Rightarrow> Rect" where
  "Rect_new px py w h = \<lparr>origin = Point_new px py, size_rect = Size_new w h\<rparr>"

text \<open>The copy form (\<^verbatim>\<open>new Rect(r)\<close>, taken when the second argument is undefined).\<close>

definition Point_copy :: "Point \<Rightarrow> Point" where
  "Point_copy p = \<lparr>x = x p, y = y p\<rparr>"

definition Size_copy :: "Size \<Rightarrow> Size" where
  "Size_copy s = \<lparr>width = width s, height = height s\<rparr>"

definition Rect_copy :: "Rect \<Rightarrow> Rect" where
  "Rect_copy r = \<lparr>origin = Point_copy (origin r), size_rect = Size_copy (size_rect r)\<rparr>"

definition minX :: "Rect \<Rightarrow> rat" where
  "minX r = x (origin r)"

definition midX :: "Rect \<Rightarrow> rat" where
  "midX r = x (origin r) + width (size_rect r) / 2"

definition maxX :: "Rect \<Rightarrow> rat" where
  "maxX r = x (origin r) + width (size_rect r)"

definition minY :: "Rect \<Rightarrow> rat" where
  "minY r = y (origin r)"

definition midY :: "Rect \<Rightarrow> rat" where
  "midY r = y (origin r) + height (size_rect r) / 2"

definition maxY :: "Rect \<Rightarrow> rat" where
  "maxY r = y (origin r) + height (size_rect r)"

definition containsPoint :: "Rect \<Rightarrow> Point \<Rightarrow> bool" where
  "containsPoint r p \<longleftrightarrow>
     x p \<ge> minX r \<and> x p \<le> maxX r \<and> y p \<ge> minY r \<and> y p \<le> maxY r"

text \<open>\<^verbatim>\<open>this.equals(p)\<close>: the receiver is the first argument.\<close>

definition Point_equals :: "Point \<Rightarrow> Point \<Rightarrow> bool" where
  "Point_equals this p \<longleftrightarrow> x p = x this \<and> y p = y this"

definition Size_equals :: "Size \<Rightarrow> Size \<Rightarrow> bool" where
  "Size_equals this s \<longleftrightarrow> width s = width this \<and> height s = height this"

definition Rect_equals :: "Rect \<Rightarrow> Rect \<Rightarrow> bool" where
  "Rect_equals this r \<longleftrightarrow>
     Point_equals (origin r) (origin this) \<and> Size_equals (size_rect r) (size_rect this)"

definition centeredIn :: "Rect \<Rightarrow> Rect \<Rightarrow> Rect" where
  "centeredIn this outer =
     Rect_new (minX outer + (width (size_rect outer) - width (size_rect this)) / 2)
              (minY outer + (height (size_rect outer) - height (size_rect this)) / 2)
              (width (size_rect this)) (height (size_rect this))"

text \<open>
  \<^verbatim>\<open>Math.round\<close> returns the integer nearest to its argument, a tie going to the
  larger one: the floor of the argument plus one half.
\<close>

definition Math_round :: "rat \<Rightarrow> rat" where
  "Math_round v = of_int \<lfloor>v + 1 / 2\<rfloor>"

definition alignedToGrid :: "Rect \<Rightarrow> Rect" where
  "alignedToGrid this =
     Rect_new (Math_round (x (origin this))) (Math_round (y (origin this)))
              (Math_round (width (size_rect this))) (Math_round (height (size_rect this)))"

subsection \<open>Binary64 arithmetic\<close>

text \<open>
  The number of binary digits of a positive integer; \<open>exponent v\<close> is the integer \<open>e\<close>
  with \<open>2 ^ e \<le> \<bar>v\<bar> < 2 ^ (e + 1)\<close>, for \<open>v\<close> other than \<open>0\<close>, and \<open>pow2 e\<close> is
  \<open>2 ^ e\<close> for an integer \<open>e\<close> of either sign.
\<close>

function bit_length :: "int \<Rightarrow> int" where
  "bit_length n = (if n \<le> 0 then 0 else bit_length (n div 2) + 1)"
  by pat_completeness auto
termination
  by (relation "measure nat") auto

declare bit_length.simps [simp del]

definition exponent :: "rat \<Rightarrow> int" where
  "exponent v =
     (if 1 \<le> \<bar>v\<bar> then bit_length \<lfloor>\<bar>v\<bar>\<rfloor> - 1
      else - bit_length (\<lceil>1 / \<bar>v\<bar>\<rceil> - 1))"

definition pow2 :: "int \<Rightarrow> rat" where
  "pow2 e = (if 0 \<le> e then 2 ^ nat e else 1 / 2 ^ nat (- e))"

text \<open>Rounding to the nearest integer, a tie going to the even one.\<close>

definition round_half_even :: "rat \<Rightarrow> int" where
  "round_half_even q =
     (let f = \<lfloor>q\<rfloor>; r = q - of_int f
      in if r < 1 / 2 then f
         else if 1 / 2 < r then f + 1
         else if even f then f else f + 1)"

text \<open>
  The binary64 number nearest to \<open>v\<close>, a tie going to the one with the even significand:
  \<open>v\<close> rounded to a multiple of the spacing of the binary64 numbers around it, which is
  \<open>2 ^ (e - 52)\<close> for a significand of 53 bits, and \<open>2 ^ (- 1074)\<close> below the smallest
  normal number \<open>2 ^ (- 1022)\<close>. A result that exceeds the largest binary64 number is
  \<^verbatim>\<open>Infinity\<close> in the program and is outside this model; \<open>binary64 v\<close> says that \<open>v\<close>
  is a finite binary64 number, and statements about rounded arithmetic are made for such
  numbers.
\<close>

definition round_binary64 :: "rat \<Rightarrow> rat" where
  "round_binary64 v =
     (if v = 0 then 0
      else (let u = pow2 (max (exponent v) (- 1022) - 52)
            in sgn v * (of_int (round_half_even (\<bar>v\<bar> / u)) * u)))"

definition binary64 :: "rat \<Rightarrow> bool" where
  "binary64 v \<longleftrightarrow> round_binary64 v = v \<and> exponent v \<le> 1023"

text \<open>The operators \<^verbatim>\<open>+\<close>, \<^verbatim>\<open>-\<close> and \<^verbatim>\<open>*\<close> on numbers.\<close>

definition js_add :: "rat \<Rightarrow> rat \<Rightarrow> rat" where
  "js_add a b = round_binary64 (a + b)"

definition js_sub :: "rat \<Rightarrow> rat \<Rightarrow> rat" where
  "js_sub a b = round_binary64 (a - b)"

definition js_mul :: "rat \<Rightarrow> rat \<Rightarrow> rat" where
  "js_mul a b = round_binary64 (a * b)"

definition inset :: "Rect \<Rightarrow> rat \<Rightarrow> rat \<Rightarrow> Rect" where
  "inset this dx dy =
     Rect_new (js_add (x (origin this)) dx) (js_add (y (origin this)) dx)
              (js_sub (width (size_rect this)) (js_mul 2 dx))
              (js_sub (height (size_rect this)) (js_mul 2 dy))"

section \<open>The drawing context and \<^verbatim>\<open>drawImageAspectFill\<close>\<close>

text \<open>
  The 2D context belongs to the browser. A call of one of its methods is recorded as a
  value of \<open>canvas_op\<close>, and a function that draws returns the list of the calls it has
  made, in order, with the exception that ended it, if any. An image is the record of the
  two properties that \<^verbatim>\<open>drawImageAspectFill\<close> reads from it; \<open>None\<close> stands for the
  value \<^verbatim>\<open>undefined\<close>, and reading a property of it throws a \<^verbatim>\<open>TypeError\<close>.
\<close>

datatype error = TypeError

record Video =
  naturalWidth :: rat
  naturalHeight :: rat

datatype canvas_op =
    Save
  | Restore
  | CtxRect rat rat rat rat
  | FillStyle string
  | Fill
  | Translate rat rat
  | BeginPath
  | Clip
  | Scale rat rat
  | DrawImage Video rat rat

definition drawImageAspectFill :: "Video option \<Rightarrow> Rect \<Rightarrow> canvas_op list \<times> error option" where
  "drawImageAspectFill image_arg dstRect =
     (case image_arg of
        None \<Rightarrow> ([], Some TypeError)
      | Some img \<Rightarrow>
          (let iw = naturalWidth img;
               ih = naturalHeight img
           in if iw = 0 \<or> ih = 0 \<or> width (size_rect dstRect) = 0 \<or> height (size_rect dstRect) = 0
              then ([], None)
              else
                (let srcAspect = iw / ih;
                     dstAspect = width (size_rect dstRect) / height (size_rect dstRect)
                 in ([Save,
                      Translate (x (origin dstRect)) (y (origin dstRect)),
                      BeginPath,
                      CtxRect 0 0 (width (size_rect dstRect)) (height (size_rect dstRect)),
                      Clip]
                     @ (if srcAspect < dstAspect
                        then (let scale = width (size_rect dstRect) / iw
                              in [Translate 0 ((height (size_rect dstRect) - ih * scale) / 2),
                                  Scale scale scale])
                        else (let scale = height (size_rect dstRect) / ih
                              in [Translate ((width (size_rect dstRect) - iw * scale) / 2) 0,
                                  Scale scale scale]))
                     @ [DrawImage img 0 0, Restore],
                     None))))"

section \<open>The Passthrough composition\<close>

text \<open>
  The fields \<^verbatim>\<open>playing\<close> and \<^verbatim>\<open>vidIdx\<close> are not set by the constructor: \<open>None\<close> is
  the value \<^verbatim>\<open>undefined\<close> they have until \<^verbatim>\<open>play\<close> or \<^verbatim>\<open>stop\<close> assigns them. The
  calls of \<^verbatim>\<open>pause()\<close> and \<^verbatim>\<open>play()\<close> on the video elements are recorded in \<open>calls\<close>,
  each with the position of the element in \<^verbatim>\<open>videos\<close>. The fields of the canvas are
  named \<open>canvas_width\<close> and \<open>canvas_height\<close>, \<open>width\<close> and \<open>height\<close> being those of
  \<open>Size\<close>.
\<close>

record Canvas =
  canvas_width :: rat
  canvas_height :: rat

datatype media_call = Pause nat | Play nat

record Passthrough =
  canvas :: Canvas
  videos :: "Video list"
  playing :: "bool option"
  vidIdx :: "int option"
  calls :: "media_call list"

definition Passthrough_new :: "Canvas \<Rightarrow> Video list \<Rightarrow> Passthrough" where
  "Passthrough_new c vs =
     \<lparr>canvas = c, videos = vs, playing = None, vidIdx = None, calls = []\<rparr>"

text \<open>
  \<^verbatim>\<open>this.videos[this.vidIdx]\<close>: an array read at an index that is not one of
  \<open>0, \<dots>, length - 1\<close> (a negative one, one past the end, or \<^verbatim>\<open>undefined\<close>) gives
  \<^verbatim>\<open>undefined\<close>.
\<close>

definition array_get :: "'a list \<Rightarrow> int option \<Rightarrow> 'a option" where
  "array_get xs idx =
     (case idx of
        None \<Rightarrow> None
      | Some i \<Rightarrow> if 0 \<le> i \<and> i < int (length xs) then Some (xs ! nat i) else None)"

definition stop :: "Passthrough \<Rightarrow> Passthrough" where
  "stop this =
     this\<lparr>playing := Some False,
          calls := calls this @ map Pause [0..<length (videos this)]\<rparr>"

text \<open>
  \<^verbatim>\<open>playNext\<close>. When \<^verbatim>\<open>vidIdx\<close> is \<^verbatim>\<open>undefined\<close> the test \<^verbatim>\<open>this.vidIdx != -1\<close>
  holds and the element read is \<^verbatim>\<open>undefined\<close>, so that the call of \<^verbatim>\<open>pause\<close> throws
  before the index is incremented.
\<close>

definition playNext :: "Passthrough \<Rightarrow> error + Passthrough" where
  "playNext this =
     (if length (videos this) = 0 then Inr this
      else
        (case vidIdx this of
           None \<Rightarrow> Inl TypeError
         | Some i \<Rightarrow>
             if i \<noteq> - 1 \<and> array_get (videos this) (Some i) = None then Inl TypeError
             else
               (let paused = (if i \<noteq> - 1
                              then this\<lparr>calls := calls this @ [Pause (nat i)]\<rparr>
                              else this);
                    j = i + 1;
                    k = (if j = int (length (videos this)) then 0 else j)
                in if array_get (videos this) (Some k) = None then Inl TypeError
                   else Inr (paused\<lparr>vidIdx := Some k,
                                    calls := calls paused @ [Play (nat k)]\<rparr>))))"

definition play :: "Passthrough \<Rightarrow> error + Passthrough" where
  "play this = playNext ((stop this)\<lparr>playing := Some True, vidIdx := Some (- 1)\<rparr>)"

text \<open>The listener of the \<^verbatim>\<open>ended\<close> event of every video.\<close>

definition handleEnd :: "Passthrough \<Rightarrow> error + Passthrough" where
  "handleEnd this = (if playing this = Some True then playNext this else Inr this)"

definition drawInContext :: "Passthrough \<Rightarrow> canvas_op list \<times> error option" where
  "drawInContext this =
     (if playing this \<noteq> Some True then ([], None)
      else drawImageAspectFill (array_get (videos this) (vidIdx this))
             (Rect_new 0 0 (canvas_width (canvas this)) (canvas_height (canvas this))))"

text \<open>
  \<^verbatim>\<open>Composition.draw\<close>, with the hook of Passthrough. An exception thrown by the hook
  leaves \<^verbatim>\<open>draw\<close> before \<^verbatim>\<open>ctx.restore()\<close>.
\<close>

definition draw :: "Passthrough \<Rightarrow> canvas_op list \<times> error option" where
  "draw this =
     (let w = canvas_width (canvas this);
          h = canvas_height (canvas this);
          background = [Save, CtxRect 0 0 w h, FillStyle ''black'', Fill]
      in case drawInContext this of
           (ops, None) \<Rightarrow> (background @ ops @ [Restore], None)
         | (ops, Some e) \<Rightarrow> (background @ ops, Some e))"

text \<open>
  A sequence of calls made on one composition by the page and by the browser. A call that
  throws ends the sequence with its exception.
\<close>

datatype call = CallPlay | CallStop | CallPlayNext | CallHandleEnd | CallDraw

definition step :: "Passthrough \<Rightarrow> call \<Rightarrow> error + Passthrough" where
  "step this c =
     (case c of
        CallPlay \<Rightarrow> play this
      | CallStop \<Rightarrow> Inr (stop this)
      | CallPlayNext \<Rightarrow> playNext this
      | CallHandleEnd \<Rightarrow> handleEnd this
      | CallDraw \<Rightarrow> (case snd (draw this) of None \<Rightarrow> Inr this | Some e \<Rightarrow> Inl e))"

fun run :: "Passthrough \<Rightarrow> call list \<Rightarrow> error + Passthrough" where
  "run this [] = Inr this"
| "run this (c # cs) = (case step this c of Inl e \<Rightarrow> Inl e | Inr next \<Rightarrow> run next cs)"

text \<open>
  The state that \<^verbatim>\<open>play\<close> establishes and every later call keeps, when there is a video:
  \<^verbatim>\<open>vidIdx\<close> is an index of \<^verbatim>\<open>videos\<close>.
\<close>

definition in_range :: "Passthrough \<Rightarrow> bool" where
  "in_range s =
     (case vidIdx s of None \<Rightarrow> False | Some i \<Rightarrow> 0 \<le> i \<and> i < int (length (videos s)))"

text \<open>A composition of three videos whose last video is the active one.\<close>

definition three_videos :: Passthrough where
  "three_videos =
     \<lparr>canvas = \<lparr>canvas_width = 640, canvas_height = 480\<rparr>,
      videos = [\<lparr>naturalWidth = 320, naturalHeight = 240\<rparr>,
                \<lparr>naturalWidth = 200, naturalHeight = 100\<rparr>,
                \<lparr>naturalWidth = 100, naturalHeight = 200\<rparr>],
      playing = Some True, vidIdx = Some 2, calls = []\<rparr>"

text \<open>A newly constructed composition of the same three videos.\<close>

definition new_three :: Passthrough where
  "new_three =
     Passthrough_new \<lparr>canvas_width = 640, canvas_height = 480\<rparr>
       [\<lparr>naturalWidth = 320, naturalHeight = 240\<rparr>,
        \<lparr>naturalWidth = 200, naturalHeight = 100\<rparr>,
        \<lparr>naturalWidth = 100, naturalHeight = 200\<rparr>]"

section \<open>Properties of the geometry\<close>

lemma Rect_new_sel:
  "x (origin (Rect_new px py w h)) = px"
  "y (origin (Rect_new px py w h)) = py"
  "width (size_rect (Rect_new px py w h)) = w"
  "height (size_rect (Rect_new px py w h)) = h"
  by (simp_all add: Rect_new_def Point_new_def Size_new_def)

text \<open>
  C3, at the input \<^verbatim>\<open>new Rect(0, 0, 10, 10).inset(1, 2)\<close>: the rectangle returned has
  origin \<open>(1, 1)\<close> and size \<open>(8, 6)\<close>. Its Y origin has moved by \<open>dx = 1\<close>, not by
  \<open>dy = 2\<close> as the claim requires.
\<close>

theorem inset_y_origin_moves_by_dx:
  "inset (Rect_new 0 0 10 10) 1 2 = Rect_new 1 1 8 6
   \<and> y (origin (inset (Rect_new 0 0 10 10) 1 2)) \<noteq> y (origin (Rect_new 0 0 10 10)) + 2"
proof -
  have "round_binary64 1 = 1" "round_binary64 2 = 2" "round_binary64 4 = 4"
    "round_binary64 8 = 8" "round_binary64 6 = 6"
    by code_simp+
  then show ?thesis
    by (simp add: inset_def js_add_def js_sub_def js_mul_def Rect_new_sel)
qed

text \<open>
  C6: \<open>centeredIn\<close> keeps the size of the receiver and places it so that both of its
  midpoints are those of the outer rectangle, whatever the two sizes are (nothing is
  clamped when the receiver is the larger one: the origin is then left of or above the
  outer origin).
\<close>

theorem centeredIn_centered:
  "size_rect (centeredIn r outer) = size_rect r
   \<and> midX (centeredIn r outer) = midX outer
   \<and> midY (centeredIn r outer) = midY outer
   \<and> x (origin (centeredIn r outer))
       = minX outer + (width (size_rect outer) - width (size_rect r)) / 2
   \<and> y (origin (centeredIn r outer))
       = minY outer + (height (size_rect outer) - height (size_rect r)) / 2"
  by (simp add: centeredIn_def midX_def midY_def minX_def minY_def Rect_new_def
      Point_new_def Size_new_def field_simps)

text \<open>
  C7: each of the four fields of \<open>alignedToGrid r\<close> is the field of \<open>r\<close> rounded to
  the nearest integer: it is an integer, and no integer is nearer to the field of \<open>r\<close>.
\<close>

lemma Math_round_eq: "Math_round v = of_int (round v)"
  by (simp add: Math_round_def round_def)

theorem alignedToGrid_rounds_fields:
  "x (origin (alignedToGrid r)) = of_int (round (x (origin r)))
   \<and> y (origin (alignedToGrid r)) = of_int (round (y (origin r)))
   \<and> width (size_rect (alignedToGrid r)) = of_int (round (width (size_rect r)))
   \<and> height (size_rect (alignedToGrid r)) = of_int (round (height (size_rect r)))
   \<and> (\<forall>m::int.
        \<bar>x (origin r) - x (origin (alignedToGrid r))\<bar> \<le> \<bar>x (origin r) - of_int m\<bar>
      \<and> \<bar>y (origin r) - y (origin (alignedToGrid r))\<bar> \<le> \<bar>y (origin r) - of_int m\<bar>
      \<and> \<bar>width (size_rect r) - width (size_rect (alignedToGrid r))\<bar>
          \<le> \<bar>width (size_rect r) - of_int m\<bar>
      \<and> \<bar>height (size_rect r) - height (size_rect (alignedToGrid r))\<bar>
          \<le> \<bar>height (size_rect r) - of_int m\<bar>)"
  by (simp add: alignedToGrid_def Rect_new_sel Math_round_eq round_diff_minimal)

text \<open>
  C8: \<open>containsPoint\<close> is the inclusive test of the point against the minimum and
  maximum of the rectangle on both axes.
\<close>

theorem containsPoint_inclusive:
  "containsPoint r p =
     (minX r \<le> x p \<and> x p \<le> maxX r \<and> minY r \<le> y p \<and> y p \<le> maxY r)
   \<and> containsPoint r p =
     (x (origin r) \<le> x p \<and> x p \<le> x (origin r) + width (size_rect r)
      \<and> y (origin r) \<le> y p \<and> y p \<le> y (origin r) + height (size_rect r))"
  by (simp add: containsPoint_def minX_def maxX_def minY_def maxY_def)

text \<open>
  The exponent is the one of the text above, and a finite binary64 number is below
  \<open>2 ^ 1024\<close> in magnitude.
\<close>

lemma bit_length_nonneg: "0 \<le> bit_length n"
  by (induction n rule: bit_length.induct) (subst bit_length.simps, simp)

lemma bit_length_pos: "0 < n \<Longrightarrow> 0 < bit_length n"
  using bit_length_nonneg [of "n div 2"] by (subst bit_length.simps) simp

lemma bit_length_bounds:
  "0 < n \<Longrightarrow> 2 ^ nat (bit_length n - 1) \<le> n \<and> n < 2 ^ nat (bit_length n)"
proof (induction n rule: bit_length.induct)
  case (1 n)
  have bl: "bit_length n = bit_length (n div 2) + 1"
    using "1.prems" by (subst bit_length.simps) simp
  show ?case
  proof (cases "n div 2 = 0")
    case True
    then have "n = 1" using "1.prems" by presburger
    then show ?thesis
      by (simp add: bit_length.simps [of 1] bit_length.simps [of 0])
  next
    case False
    then have pos: "0 < n div 2" using "1.prems" by presburger
    with "1.IH" "1.prems" have ih: "2 ^ nat (bit_length (n div 2) - 1) \<le> n div 2"
      "n div 2 < 2 ^ nat (bit_length (n div 2))"
      by simp_all
    have p: "0 < bit_length (n div 2)" using pos by (rule bit_length_pos)
    then have "nat (bit_length (n div 2)) = Suc (nat (bit_length (n div 2) - 1))"
      by simp
    then have "(2::int) ^ nat (bit_length (n div 2)) = 2 * 2 ^ nat (bit_length (n div 2) - 1)"
      by simp
    with ih(1) have lo: "(2::int) ^ nat (bit_length (n div 2)) \<le> n"
      by presburger
    have "nat (bit_length (n div 2) + 1) = Suc (nat (bit_length (n div 2)))"
      using p by simp
    then have "(2::int) ^ nat (bit_length (n div 2) + 1) = 2 * 2 ^ nat (bit_length (n div 2))"
      by simp
    with ih(2) have hi: "n < 2 ^ nat (bit_length (n div 2) + 1)"
      by presburger
    from lo hi show ?thesis by (simp add: bl)
  qed
qed

lemma exponent_bounds:
  assumes "v \<noteq> 0"
  shows "pow2 (exponent v) \<le> \<bar>v\<bar> \<and> \<bar>v\<bar> < pow2 (exponent v + 1)"
proof (cases "1 \<le> \<bar>v\<bar>")
  case True
  let ?n = "\<lfloor>\<bar>v\<bar>\<rfloor>"
  have n: "0 < ?n" using True by simp
  from bit_length_bounds [OF n] have b: "2 ^ nat (bit_length ?n - 1) \<le> ?n"
    "?n < 2 ^ nat (bit_length ?n)" by simp_all
  have p: "0 < bit_length ?n" using n by (rule bit_length_pos)
  have "(of_int (2 ^ nat (bit_length ?n - 1)) :: rat) \<le> of_int ?n"
    using b(1) by (simp only: of_int_le_iff)
  also have "\<dots> \<le> \<bar>v\<bar>" by simp
  finally have lo: "(2::rat) ^ nat (bit_length ?n - 1) \<le> \<bar>v\<bar>" by simp
  have "?n + 1 \<le> 2 ^ nat (bit_length ?n)" using b(2) by simp
  then have "(of_int (?n + 1) :: rat) \<le> of_int (2 ^ nat (bit_length ?n))"
    by (simp only: of_int_le_iff)
  moreover have "\<bar>v\<bar> < of_int (?n + 1)" by linarith
  ultimately have hi: "\<bar>v\<bar> < (2::rat) ^ nat (bit_length ?n)" by simp
  show ?thesis
    using True lo hi p by (simp add: exponent_def pow2_def)
next
  case False
  let ?a = "\<bar>v\<bar>"
  let ?m = "\<lceil>1 / ?a\<rceil>"
  let ?k = "bit_length (?m - 1)"
  have a: "0 < ?a" "?a < 1" using assms False by simp_all
  then have "1 < 1 / ?a" by simp
  then have "1 < ?m" by linarith
  then have n: "0 < ?m - 1" by simp
  from bit_length_bounds [OF n] have b: "2 ^ nat (?k - 1) \<le> ?m - 1" "?m - 1 < 2 ^ nat ?k"
    by simp_all
  have k: "0 < ?k" using n by (rule bit_length_pos)
  have "?m \<le> 2 ^ nat ?k" using b(2) by simp
  then have "(of_int ?m :: rat) \<le> of_int (2 ^ nat ?k)"
    by (simp only: of_int_le_iff)
  then have "(of_int ?m :: rat) \<le> 2 ^ nat ?k"
    by (simp only: of_int_power of_int_numeral)
  moreover have "1 / ?a \<le> of_int ?m" by (rule le_of_int_ceiling)
  ultimately have "1 / ?a \<le> 2 ^ nat ?k" by (rule order_trans [rotated])
  then have lo: "1 / 2 ^ nat ?k \<le> ?a"
    using a(1) by (simp add: field_simps)
  have "(of_int (2 ^ nat (?k - 1)) :: rat) \<le> of_int (?m - 1)"
    using b(1) by (simp only: of_int_le_iff)
  then have "(2::rat) ^ nat (?k - 1) \<le> of_int (?m - 1)"
    by (simp only: of_int_power of_int_numeral)
  moreover have "(of_int (?m - 1) :: rat) < 1 / ?a" by linarith
  ultimately have "2 ^ nat (?k - 1) < 1 / ?a" by (rule le_less_trans)
  then have hi: "?a < 1 / 2 ^ nat (?k - 1)"
    using a(1) by (simp add: field_simps)
  have e: "exponent v = - ?k"
    using False by (simp add: exponent_def)
  have p1: "pow2 (- ?k) = 1 / 2 ^ nat ?k"
    using k by (simp add: pow2_def)
  have p2: "pow2 (- ?k + 1) = 1 / 2 ^ nat (?k - 1)"
  proof (cases "?k = 1")
    case True
    then show ?thesis by (simp add: pow2_def)
  next
    case False
    with k have "1 < ?k" by simp
    then have "\<not> 0 \<le> - ?k + 1" "nat (- (- ?k + 1)) = nat (?k - 1)" by simp_all
    then show ?thesis by (simp only: pow2_def if_False)
  qed
  show ?thesis
    unfolding e p1 p2 using lo hi by simp
qed

lemma binary64_bounded:
  assumes "binary64 v"
  shows "\<bar>v\<bar> < 2 ^ 1024"
proof (cases "v = 0")
  case True
  then show ?thesis by simp
next
  case False
  from assms have e: "exponent v + 1 \<le> 1024"
    by (simp add: binary64_def)
  have "\<bar>v\<bar> < pow2 (exponent v + 1)"
    using exponent_bounds [OF False] by simp
  also have "\<dots> \<le> pow2 1024"
  proof (cases "0 \<le> exponent v + 1")
    case True
    with e have "nat (exponent v + 1) \<le> 1024" by simp
    then have "(2::rat) ^ nat (exponent v + 1) \<le> 2 ^ 1024"
      by (intro power_increasing) simp_all
    with True show ?thesis by (simp add: pow2_def)
  next
    case False
    have "1 / (2::rat) ^ nat (- (exponent v + 1)) \<le> 1" by simp
    also have "\<dots> \<le> (2::rat) ^ 1024" by (rule one_le_power) simp
    finally show ?thesis using False by (simp add: pow2_def)
  qed
  finally show ?thesis by (simp add: pow2_def)
qed

lemma exponent_minus: "exponent (- v) = exponent v"
  by (simp add: exponent_def)

lemma round_binary64_minus: "round_binary64 (- v) = - round_binary64 v"
  by (simp add: round_binary64_def exponent_minus Let_def)

lemma binary64_minus: "binary64 v \<Longrightarrow> binary64 (- v)"
  by (simp add: binary64_def round_binary64_minus exponent_minus)

text \<open>
  C10, as the claim states it, fails: \<^verbatim>\<open>new Rect(2**53, 0, 10, 10).inset(1, 1).inset(-1, -1)\<close>
  has the X origin \<open>2 ^ 53 - 1\<close>, since \<open>2 ^ 53 + 1\<close> is not a binary64 number and rounds
  to \<open>2 ^ 53 = 9007199254740992\<close>; \<^verbatim>\<open>equals\<close> is false of it and the rectangle started from.
\<close>

theorem inset_round_trip_rounds:
  "binary64 9007199254740992 \<and> binary64 10 \<and> binary64 1
   \<and> inset (inset (Rect_new 9007199254740992 0 10 10) 1 1) (- 1) (- 1)
       = Rect_new 9007199254740991 0 10 10
   \<and> \<not> Rect_equals (inset (inset (Rect_new 9007199254740992 0 10 10) 1 1) (- 1) (- 1))
         (Rect_new 9007199254740992 0 10 10)"
proof -
  have b: "binary64 9007199254740992" "binary64 10" "binary64 1"
    by code_simp+
  have r: "round_binary64 9007199254740993 = 9007199254740992"
    "round_binary64 9007199254740991 = 9007199254740991"
    "round_binary64 1 = 1" "round_binary64 2 = 2" "round_binary64 8 = 8"
    "round_binary64 10 = 10" "round_binary64 0 = 0"
    by code_simp+
  have first: "inset (Rect_new 9007199254740992 0 10 10) 1 1 = Rect_new 9007199254740992 1 8 8"
    by (simp add: inset_def js_add_def js_sub_def js_mul_def Rect_new_sel r)
  have second: "inset (Rect_new 9007199254740992 1 8 8) (- 1) (- 1)
      = Rect_new 9007199254740991 0 10 10"
    by (simp add: inset_def js_add_def js_sub_def js_mul_def Rect_new_sel r round_binary64_minus)
  show ?thesis
    using b by (simp add: first second Rect_equals_def Point_equals_def Rect_new_sel)
qed

text \<open>
  C10, amended: for a rectangle and deltas that are finite binary64 numbers, when the
  first inset is computed without rounding (\<open>2 * dx\<close>, \<open>2 * dy\<close> and the four fields
  it computes are binary64 numbers), insetting by \<open>(dx, dy)\<close> and then by \<open>(-dx, -dy)\<close>
  gives a rectangle that \<open>equals\<close> the one started from. The Y origin is moved by \<open>dx\<close>
  and back by \<open>-dx\<close>, so the delta used for it cancels.
\<close>

theorem inset_round_trip:
  assumes "binary64 (x (origin r))" and "binary64 (y (origin r))"
    and "binary64 (width (size_rect r))" and "binary64 (height (size_rect r))"
    and "binary64 dx" and "binary64 dy"
    and "binary64 (2 * dx)" and "binary64 (2 * dy)"
    and "binary64 (x (origin r) + dx)" and "binary64 (y (origin r) + dx)"
    and "binary64 (width (size_rect r) - 2 * dx)"
    and "binary64 (height (size_rect r) - 2 * dy)"
  shows "Rect_equals (inset (inset r dx dy) (- dx) (- dy)) r"
proof -
  have e: "round_binary64 v = v" if "binary64 v" for v
    using that by (simp add: binary64_def)
  have first: "inset r dx dy =
      Rect_new (x (origin r) + dx) (y (origin r) + dx)
        (width (size_rect r) - 2 * dx) (height (size_rect r) - 2 * dy)"
    using assms by (simp add: inset_def js_add_def js_sub_def js_mul_def e)
  have m: "round_binary64 (- (2 * dx)) = - (2 * dx)" "round_binary64 (- (2 * dy)) = - (2 * dy)"
    using assms by (simp_all add: round_binary64_minus e)
  show ?thesis
    using assms
    by (simp add: first inset_def js_add_def js_sub_def js_mul_def Rect_new_sel m e
        Rect_equals_def Point_equals_def Size_equals_def)
qed

text \<open>The theorem at \<^verbatim>\<open>new Rect(0, 0, 10, 10)\<close> and the deltas \<open>(1, 2)\<close>.\<close>

theorem inset_round_trip_witness:
  "binary64 0 \<and> binary64 10 \<and> binary64 1 \<and> binary64 2 \<and> binary64 (2 * 1) \<and> binary64 (2 * 2)
   \<and> binary64 (0 + 1) \<and> binary64 (10 - 2 * 1) \<and> binary64 (10 - 2 * 2)
   \<and> Rect_equals (inset (inset (Rect_new 0 0 10 10) 1 2) (- 1) (- 2)) (Rect_new 0 0 10 10)"
proof -
  have b: "binary64 0" "binary64 10" "binary64 1" "binary64 2" "binary64 4" "binary64 8"
    "binary64 6"
    by code_simp+
  have "Rect_equals (inset (inset (Rect_new 0 0 10 10) 1 2) (- 1) (- 2)) (Rect_new 0 0 10 10)"
    by (rule inset_round_trip) (simp_all add: Rect_new_sel b)
  with b show ?thesis by simp
qed

section \<open>Properties of the aspect-fill drawing\<close>

text \<open>
  C2, as the claim states it, fails: for a 200\<times>100 source and a 100\<times>100 destination the
  context is never scaled by \<open>1/2\<close>.
\<close>

theorem aspectFill_scale_is_not_half:
  "Scale (1 / 2) (1 / 2) \<notin> set (fst (drawImageAspectFill
      (Some \<lparr>naturalWidth = 200, naturalHeight = 100\<rparr>) (Rect_new 0 0 100 100)))"
  by (simp add: drawImageAspectFill_def Rect_new_sel)

text \<open>
  C2, amended: for a 200\<times>100 source and a 100\<times>100 destination at any origin, the source
  aspect \<open>2\<close> is not less than the destination aspect \<open>1\<close>, so the branch that matches
  the height is taken: the scale is \<open>100 / 100 = 1\<close>, the vertical translation is \<open>0\<close>
  and the horizontal one is \<open>(100 - 200 * 1) / 2 = - 50\<close>. The image is drawn at its
  natural size 200\<times>100, centred horizontally and clipped to the destination.
\<close>

theorem aspectFill_200x100_into_100x100:
  "drawImageAspectFill (Some \<lparr>naturalWidth = 200, naturalHeight = 100\<rparr>)
       (Rect_new px py 100 100)
     = ([Save, Translate px py, BeginPath, CtxRect 0 0 100 100, Clip,
         Translate (- 50) 0, Scale 1 1,
         DrawImage \<lparr>naturalWidth = 200, naturalHeight = 100\<rparr> 0 0, Restore], None)"
  by (simp add: drawImageAspectFill_def Rect_new_sel)

section \<open>Properties of the Passthrough composition\<close>

text \<open>
  C1, at the input \<^verbatim>\<open>new Passthrough(canvas, [])\<close> followed by \<^verbatim>\<open>play()\<close> and
  \<^verbatim>\<open>draw()\<close>: \<^verbatim>\<open>play\<close> leaves \<^verbatim>\<open>playing\<close> true and \<^verbatim>\<open>vidIdx\<close> at \<open>-1\<close>, and
  \<^verbatim>\<open>draw\<close> fills the background and then throws a \<^verbatim>\<open>TypeError\<close>, since
  \<^verbatim>\<open>this.videos[-1]\<close> is \<^verbatim>\<open>undefined\<close> and \<^verbatim>\<open>drawImageAspectFill\<close> reads its
  \<^verbatim>\<open>naturalWidth\<close>. No video frame is drawn, but the call does not complete.
\<close>

theorem draw_empty_after_play_throws:
  "play (Passthrough_new c [])
     = Inr ((Passthrough_new c [])\<lparr>playing := Some True, vidIdx := Some (- 1)\<rparr>)
   \<and> draw ((Passthrough_new c [])\<lparr>playing := Some True, vidIdx := Some (- 1)\<rparr>)
       = ([Save, CtxRect 0 0 (canvas_width c) (canvas_height c), FillStyle ''black'', Fill],
          Some TypeError)"
  by (simp add: play_def stop_def playNext_def Passthrough_new_def draw_def drawInContext_def
      array_get_def drawImageAspectFill_def)

text \<open>
  C5: in any state, \<^verbatim>\<open>stop\<close> sets \<^verbatim>\<open>playing\<close> to false and calls \<^verbatim>\<open>pause()\<close> on
  every video, in order, changing nothing else; a \<^verbatim>\<open>draw\<close> that follows fills the
  background and draws no frame; and a second \<^verbatim>\<open>stop\<close> does the same again.
\<close>

theorem stop_pauses_all:
  "playing (stop s) = Some False
   \<and> calls (stop s) = calls s @ map Pause [0..<length (videos s)]
   \<and> videos (stop s) = videos s \<and> vidIdx (stop s) = vidIdx s \<and> canvas (stop s) = canvas s
   \<and> draw (stop s)
       = ([Save, CtxRect 0 0 (canvas_width (canvas s)) (canvas_height (canvas s)),
           FillStyle ''black'', Fill, Restore], None)
   \<and> playing (stop (stop s)) = Some False
   \<and> calls (stop (stop s)) = calls (stop s) @ map Pause [0..<length (videos s)]"
  by (simp add: stop_def draw_def drawInContext_def)

lemma playNext_eq:
  assumes "videos s \<noteq> []" and "vidIdx s = Some i" and "- 1 \<le> i" and "i < int (length (videos s))"
  shows "playNext s =
     Inr (s\<lparr>vidIdx := Some ((i + 1) mod int (length (videos s))),
            calls := calls s @ (if i \<noteq> - 1 then [Pause (nat i)] else [])
                     @ [Play (nat ((i + 1) mod int (length (videos s))))]\<rparr>)"
proof (cases "i + 1 = int (length (videos s))")
  case True
  with assms show ?thesis
    by (simp add: playNext_def array_get_def Let_def)
next
  case False
  with assms have "(i + 1) mod int (length (videos s)) = i + 1"
    by simp
  with False assms show ?thesis
    by (simp add: playNext_def array_get_def Let_def)
qed

lemma playNext_empty: "playNext (s\<lparr>videos := []\<rparr>) = Inr (s\<lparr>videos := []\<rparr>)"
  by (simp add: playNext_def)

lemma play_eq:
  assumes "videos s \<noteq> []"
  shows "play s = Inr ((stop s)\<lparr>playing := Some True, vidIdx := Some 0,
                               calls := calls (stop s) @ [Play 0]\<rparr>)"
  using assms playNext_eq [of "(stop s)\<lparr>playing := Some True, vidIdx := Some (- 1)\<rparr>" "- 1"]
  by (simp add: play_def stop_def)

lemma handleEnd_eq:
  assumes "playing s = Some True" and "videos s \<noteq> []" and "vidIdx s = Some i"
    and "0 \<le> i" and "i < int (length (videos s))"
  shows "handleEnd s =
     Inr (s\<lparr>vidIdx := Some ((i + 1) mod int (length (videos s))),
            calls := calls s @ [Pause (nat i), Play (nat ((i + 1) mod int (length (videos s))))]\<rparr>)"
  using assms playNext_eq [of s i] by (simp add: handleEnd_def)

lemma run_handleEnd:
  assumes "playing s = Some True" and "videos s \<noteq> []" and "vidIdx s = Some i"
    and "0 \<le> i" and "i < int (length (videos s))"
  shows "\<exists>s2. run s (replicate k CallHandleEnd) = Inr s2
            \<and> vidIdx s2 = Some ((i + int k) mod int (length (videos s)))"
  using assms
proof (induction k arbitrary: s i)
  case 0
  then show ?case by simp
next
  case (Suc k)
  let ?n = "int (length (videos s))"
  let ?s1 = "s\<lparr>vidIdx := Some ((i + 1) mod ?n),
               calls := calls s @ [Pause (nat i), Play (nat ((i + 1) mod ?n))]\<rparr>"
  have st: "step s CallHandleEnd = Inr ?s1"
    using Suc.prems handleEnd_eq [of s i] by (simp add: step_def)
  have "\<exists>s2. run ?s1 (replicate k CallHandleEnd) = Inr s2
            \<and> vidIdx s2 = Some (((i + 1) mod ?n + int k) mod int (length (videos ?s1)))"
    using Suc.prems by (intro Suc.IH) simp_all
  moreover have "((i + 1) mod ?n + int k) mod ?n = (i + 1 + int k) mod ?n"
    by (rule mod_add_left_eq)
  moreover have "i + 1 + int k = i + int (Suc k)"
    by simp
  ultimately show ?case
    using st by simp
qed

lemma after_play:
  assumes "videos t \<noteq> []"
  shows "\<exists>s1 s2. play t = Inr s1 \<and> vidIdx s1 = Some 0
             \<and> run s1 (replicate k CallHandleEnd) = Inr s2
             \<and> vidIdx s2 = Some (int k mod int (length (videos t)))"
proof -
  let ?s1 = "(stop t)\<lparr>playing := Some True, vidIdx := Some 0,
                      calls := calls (stop t) @ [Play 0]\<rparr>"
  have "play t = Inr ?s1"
    using assms by (rule play_eq)
  moreover have "\<exists>s2. run ?s1 (replicate k CallHandleEnd) = Inr s2
          \<and> vidIdx s2 = Some ((0 + int k) mod int (length (videos ?s1)))"
    using assms by (intro run_handleEnd) (simp_all add: stop_def)
  ultimately show ?thesis
    by (simp add: stop_def)
qed

text \<open>
  C4, as the claim states it, fails: on a composition of one video on which \<^verbatim>\<open>play\<close> has
  not been called, \<^verbatim>\<open>vidIdx\<close> is \<^verbatim>\<open>undefined\<close> and \<^verbatim>\<open>playNext\<close> throws a
  \<^verbatim>\<open>TypeError\<close>: it pauses nothing, advances nothing and starts nothing.
\<close>

theorem playNext_new_composition_throws:
  "playNext (Passthrough_new \<lparr>canvas_width = 640, canvas_height = 480\<rparr>
       [\<lparr>naturalWidth = 320, naturalHeight = 240\<rparr>]) = Inl TypeError"
  by (simp add: playNext_def Passthrough_new_def)

text \<open>
  C4, amended. With at least one video and \<^verbatim>\<open>vidIdx\<close> at \<open>-1\<close> or at an index \<open>i\<close> of
  \<^verbatim>\<open>videos\<close>, \<^verbatim>\<open>playNext\<close> calls \<^verbatim>\<open>pause()\<close> on video \<open>i\<close> (unless \<open>i = -1\<close>), sets
  \<^verbatim>\<open>vidIdx\<close> to \<open>(i + 1) mod n\<close> and calls \<^verbatim>\<open>play()\<close> on that video. With no video
  it returns the state as it is, in every state. In every state with at least one video,
  a newly constructed one included, \<^verbatim>\<open>play\<close> returns with the index \<open>0\<close>, and after
  \<open>k\<close> more \<^verbatim>\<open>ended\<close> events the index is \<open>k mod n\<close>: with three videos,
  \<open>0, 1, 2, 0, 1, 2, \<dots>\<close> With at least one video and \<^verbatim>\<open>vidIdx\<close> still
  \<^verbatim>\<open>undefined\<close>, \<^verbatim>\<open>playNext\<close> throws.
\<close>

theorem playNext_advances_circularly:
  "(videos s \<noteq> [] \<and> vidIdx s = Some i \<and> - 1 \<le> i \<and> i < int (length (videos s)) \<longrightarrow>
      playNext s =
        Inr (s\<lparr>vidIdx := Some ((i + 1) mod int (length (videos s))),
               calls := calls s @ (if i \<noteq> - 1 then [Pause (nat i)] else [])
                        @ [Play (nat ((i + 1) mod int (length (videos s))))]\<rparr>))
   \<and> (videos s = [] \<longrightarrow> playNext s = Inr s)
   \<and> (videos s \<noteq> [] \<longrightarrow>
        (\<exists>s1 s2. play s = Inr s1 \<and> vidIdx s1 = Some 0
           \<and> run s1 (replicate k CallHandleEnd) = Inr s2
           \<and> vidIdx s2 = Some (int k mod int (length (videos s)))))
   \<and> (length (videos s) = 3 \<longrightarrow>
        (\<exists>s1 s2. play s = Inr s1 \<and> vidIdx s1 = Some 0
           \<and> run s1 (replicate k CallHandleEnd) = Inr s2
           \<and> vidIdx s2 = Some (int (k mod 3))))
   \<and> (videos s \<noteq> [] \<and> vidIdx s = None \<longrightarrow> playNext s = Inl TypeError)"
proof (intro conjI impI)
  assume "videos s \<noteq> [] \<and> vidIdx s = Some i \<and> - 1 \<le> i \<and> i < int (length (videos s))"
  then show "playNext s =
        Inr (s\<lparr>vidIdx := Some ((i + 1) mod int (length (videos s))),
               calls := calls s @ (if i \<noteq> - 1 then [Pause (nat i)] else [])
                        @ [Play (nat ((i + 1) mod int (length (videos s))))]\<rparr>)"
    by (intro playNext_eq) simp_all
next
  assume "videos s = []"
  then show "playNext s = Inr s"
    by (simp add: playNext_def)
next
  assume "videos s \<noteq> []"
  then show "\<exists>s1 s2. play s = Inr s1 \<and> vidIdx s1 = Some 0
           \<and> run s1 (replicate k CallHandleEnd) = Inr s2
           \<and> vidIdx s2 = Some (int k mod int (length (videos s)))"
    by (rule after_play)
next
  assume three: "length (videos s) = 3"
  then have "videos s \<noteq> []"
    by auto
  from after_play [OF this, of k] three
  show "\<exists>s1 s2. play s = Inr s1 \<and> vidIdx s1 = Some 0
           \<and> run s1 (replicate k CallHandleEnd) = Inr s2
           \<and> vidIdx s2 = Some (int (k mod 3))"
    by (simp add: zmod_int)
next
  assume "videos s \<noteq> [] \<and> vidIdx s = None"
  then show "playNext s = Inl TypeError"
    by (simp add: playNext_def)
qed

text \<open>
  The theorem at \<open>three_videos\<close>, whose index is \<open>2\<close> (\<^verbatim>\<open>playNext\<close> wraps to \<open>0\<close>), at a
  new composition of no video, and at \<open>new_three\<close> (four \<^verbatim>\<open>ended\<close> events after
  \<^verbatim>\<open>play\<close> lead to index \<open>1\<close>).
\<close>

theorem playNext_advances_circularly_witness:
  "videos three_videos \<noteq> [] \<and> vidIdx three_videos = Some 2 \<and> - 1 \<le> (2::int)
   \<and> 2 < int (length (videos three_videos))
   \<and> playNext three_videos = Inr (three_videos\<lparr>vidIdx := Some 0, calls := [Pause 2, Play 0]\<rparr>)
   \<and> videos (Passthrough_new \<lparr>canvas_width = 640, canvas_height = 480\<rparr> []) = []
   \<and> playNext (Passthrough_new \<lparr>canvas_width = 640, canvas_height = 480\<rparr> [])
       = Inr (Passthrough_new \<lparr>canvas_width = 640, canvas_height = 480\<rparr> [])
   \<and> vidIdx new_three = None \<and> videos new_three \<noteq> [] \<and> length (videos new_three) = 3
   \<and> (\<exists>s1 s2. play new_three = Inr s1 \<and> vidIdx s1 = Some 0
          \<and> run s1 (replicate 4 CallHandleEnd) = Inr s2 \<and> vidIdx s2 = Some 1)
   \<and> playNext new_three = Inl TypeError"
proof -
  have h: "videos three_videos \<noteq> []" "vidIdx three_videos = Some 2" "- 1 \<le> (2::int)"
    "2 < int (length (videos three_videos))" "calls three_videos = []"
    "int (length (videos three_videos)) = 3"
    by (simp_all add: three_videos_def)
  have e: "videos (Passthrough_new \<lparr>canvas_width = 640, canvas_height = 480\<rparr> []) = []"
    by (simp add: Passthrough_new_def)
  have n: "vidIdx new_three = None" "videos new_three \<noteq> []" "length (videos new_three) = 3"
    by (simp_all add: new_three_def Passthrough_new_def)
  show ?thesis
    using h e n
      playNext_advances_circularly [of three_videos 2 4]
      playNext_advances_circularly
        [of "Passthrough_new \<lparr>canvas_width = 640, canvas_height = 480\<rparr> []" 0 0]
      playNext_advances_circularly [of new_three 0 4]
    by simp
qed

lemma drawImageAspectFill_defined: "snd (drawImageAspectFill (Some v) r) = None"
  by (simp add: drawImageAspectFill_def Let_def)

lemma draw_in_range:
  assumes "in_range s"
  shows "snd (draw s) = None"
proof (cases "playing s = Some True")
  case True
  from assms obtain i where i: "vidIdx s = Some i" "0 \<le> i" "i < int (length (videos s))"
    by (auto simp: in_range_def split: option.splits)
  then have "array_get (videos s) (vidIdx s) = Some (videos s ! nat i)"
    by (simp add: array_get_def)
  then have "snd (drawInContext s) = None"
    using True by (simp add: drawInContext_def drawImageAspectFill_defined)
  then show ?thesis
    by (cases "drawInContext s") (simp add: draw_def Let_def)
next
  case False
  then show ?thesis
    by (simp add: draw_def drawInContext_def)
qed

lemma playNext_in_range:
  assumes "videos s \<noteq> []" and "in_range s"
  shows "\<exists>s1. playNext s = Inr s1 \<and> videos s1 = videos s \<and> in_range s1"
proof -
  from assms(2) obtain i where i: "vidIdx s = Some i" "0 \<le> i" "i < int (length (videos s))"
    by (auto simp: in_range_def split: option.splits)
  have "0 \<le> (i + 1) mod int (length (videos s))"
    "(i + 1) mod int (length (videos s)) < int (length (videos s))"
    using assms(1) by simp_all
  then show ?thesis
    using i playNext_eq [of s i] assms(1) by (simp add: in_range_def)
qed

lemma play_in_range:
  assumes "videos s \<noteq> []"
  shows "\<exists>s1. play s = Inr s1 \<and> videos s1 = videos s \<and> in_range s1"
  using assms play_eq [of s] by (simp add: in_range_def stop_def)

lemma step_in_range:
  assumes "videos s \<noteq> []" and "in_range s"
  shows "\<exists>s1. step s c = Inr s1 \<and> videos s1 = videos s \<and> in_range s1"
proof (cases c)
  case CallPlay
  then show ?thesis using play_in_range [OF assms(1)] by (simp add: step_def)
next
  case CallStop
  then show ?thesis using assms(2)
    by (simp add: step_def stop_def in_range_def split: option.splits)
next
  case CallPlayNext
  then show ?thesis using playNext_in_range [OF assms] by (simp add: step_def)
next
  case CallHandleEnd
  then show ?thesis using playNext_in_range [OF assms] assms(2)
    by (simp add: step_def handleEnd_def)
next
  case CallDraw
  then show ?thesis using draw_in_range [OF assms(2)] assms(2) by (simp add: step_def)
qed

lemma run_in_range:
  assumes "videos s \<noteq> []" and "in_range s"
  shows "\<exists>s2. run s cs = Inr s2 \<and> videos s2 = videos s \<and> in_range s2"
  using assms
proof (induction cs arbitrary: s)
  case Nil
  then show ?case by simp
next
  case (Cons c cs)
  from step_in_range [OF Cons.prems, of c] obtain s1
    where s1: "step s c = Inr s1" "videos s1 = videos s" "in_range s1"
    by blast
  with Cons.prems have "\<exists>s2. run s1 cs = Inr s2 \<and> videos s2 = videos s1 \<and> in_range s2"
    by (intro Cons.IH) simp_all
  with s1 show ?case by simp
qed

text \<open>
  C9: with at least one video, \<^verbatim>\<open>play\<close> returns, and after any sequence \<open>cs\<close> of calls
  of \<^verbatim>\<open>play\<close>, \<^verbatim>\<open>stop\<close>, \<^verbatim>\<open>playNext\<close>, \<^verbatim>\<open>handleEnd\<close> and \<^verbatim>\<open>draw\<close> that follows,
  no call has thrown, \<^verbatim>\<open>vidIdx\<close> is an index \<open>i\<close> with \<open>0 \<le> i < n\<close>, the read
  \<^verbatim>\<open>this.videos[this.vidIdx]\<close> of \<^verbatim>\<open>drawInContext\<close> gives the video at \<open>i\<close>, and a
  further \<^verbatim>\<open>draw\<close> does not throw.
\<close>

theorem vidIdx_stays_in_range:
  assumes "videos s \<noteq> []"
  shows "\<exists>s1 s2 i. play s = Inr s1 \<and> run s1 cs = Inr s2 \<and> videos s2 = videos s
           \<and> vidIdx s2 = Some i \<and> 0 \<le> i \<and> i < int (length (videos s))
           \<and> array_get (videos s2) (vidIdx s2) = Some (videos s ! nat i)
           \<and> snd (draw s2) = None"
proof -
  from play_in_range [OF assms] obtain s1
    where s1: "play s = Inr s1" "videos s1 = videos s" "in_range s1"
    by blast
  with assms have "\<exists>s2. run s1 cs = Inr s2 \<and> videos s2 = videos s1 \<and> in_range s2"
    by (intro run_in_range) simp_all
  then obtain s2 where s2: "run s1 cs = Inr s2" "videos s2 = videos s1" "in_range s2"
    by blast
  from s2(3) obtain i where i: "vidIdx s2 = Some i" "0 \<le> i" "i < int (length (videos s2))"
    by (auto simp: in_range_def split: option.splits)
  then have "array_get (videos s2) (vidIdx s2) = Some (videos s2 ! nat i)"
    by (simp add: array_get_def)
  with s1 s2 i draw_in_range [OF s2(3)] show ?thesis
    by auto
qed

text \<open>
  The theorem at the composition \<open>three_videos\<close> and a sequence of six calls.
\<close>

theorem vidIdx_stays_in_range_witness:
  "videos three_videos \<noteq> []
   \<and> (\<exists>s1 s2 i. play three_videos = Inr s1
         \<and> run s1 [CallDraw, CallHandleEnd, CallStop, CallPlayNext, CallPlay, CallDraw] = Inr s2
         \<and> vidIdx s2 = Some i \<and> 0 \<le> i \<and> i < 3 \<and> snd (draw s2) = None)"
proof -
  have h: "videos three_videos \<noteq> []"
    by (simp add: three_videos_def)
  have len: "int (length (videos three_videos)) = 3"
    by (simp add: three_videos_def)
  show ?thesis
    using h vidIdx_stays_in_range [OF h,
        of "[CallDraw, CallHandleEnd, CallStop, CallPlayNext, CallPlay, CallDraw]"]
    unfolding len by blast
qed

end
